theory Spec2Isabelle
  imports Complex_Main "HOL-Library.Multiset"
begin

section \<open>Weighted percentiles of \<^verbatim>\<open>skgarden/quantile/utils.py\<close>\<close>

text \<open>
  The module holds one function, \<^verbatim>\<open>weighted_percentile(a, q, weights=None, sorter=None)\<close>.
  It is embedded below line by line. Numbers are modelled as \<^typ>\<open>real\<close>: the
  arithmetic of the model is exact, so the rounding of the \<^verbatim>\<open>float32\<close> and
  \<^verbatim>\<open>float64\<close> arrays of the source is not represented, and neither are
  \<^verbatim>\<open>inf\<close> and \<^verbatim>\<open>nan\<close>. One-dimensional arrays are lists.
\<close>

subsection \<open>Outcomes\<close>

text \<open>
  \<open>ValueError\<close> carries the message of the exception. \<open>IndexError\<close> is what numpy
  raises when an index is out of bounds. \<open>NonFinite\<close> is not an exception: it marks the
  one place where the source goes on with \<^verbatim>\<open>inf\<close> or \<^verbatim>\<open>nan\<close>
  (a division by a total weight of zero, which numpy only warns about), values that the
  real numbers of this model do not have.
\<close>

datatype error = ValueError string | IndexError | NonFinite

text \<open>
  The argument \<^verbatim>\<open>q\<close> is a Python number (\<open>Scalar\<close>) or a sequence of numbers
  (\<open>Ranks\<close>).
\<close>

datatype rank = Scalar real | Ranks "real list"

subsection \<open>The numpy operations the function calls\<close>

text \<open>\<^verbatim>\<open>np.ones_like(a)\<close>: an array of ones, as long as \<open>a\<close>.\<close>

definition ones_like :: "real list \<Rightarrow> real list" where
  "ones_like a = replicate (length a) 1"

text \<open>
  Lines 43 to 46: a Python \<^verbatim>\<open>int\<close> or \<^verbatim>\<open>float\<close> is wrapped as
  \<^verbatim>\<open>np.array([q])\<close>, and \<^verbatim>\<open>np.array(q).flatten()\<close> is one-dimensional in every
  case.
\<close>

fun flatten :: "rank \<Rightarrow> real list" where
  "flatten (Scalar x) = [x]"
| "flatten (Ranks xs) = xs"

text \<open>
  \<^verbatim>\<open>q.max()\<close> and \<^verbatim>\<open>q.min()\<close> of a non-empty array (on an empty one numpy
  raises a \<^verbatim>\<open>ValueError\<close>, which \<open>weighted_percentile\<close> below writes out).
\<close>

fun amax :: "real list \<Rightarrow> real" where
  "amax [] = 0"
| "amax [x] = x"
| "amax (x # y # ys) = max x (amax (y # ys))"

fun amin :: "real list \<Rightarrow> real" where
  "amin [] = 0"
| "amin [x] = x"
| "amin (x # y # ys) = min x (amin (y # ys))"

text \<open>
  \<^verbatim>\<open>a[sorter]\<close>, indexing by an array of integers: an index \<open>i\<close> with
  \<open>- n \<le> i < n\<close> reads element \<open>i\<close>, counted from the end when it is negative; any
  other index raises \<^verbatim>\<open>IndexError\<close>.
\<close>

definition index_ok :: "nat \<Rightarrow> int \<Rightarrow> bool" where
  "index_ok n i = (- int n \<le> i \<and> i < int n)"

definition wrap_index :: "nat \<Rightarrow> int \<Rightarrow> nat" where
  "wrap_index n i = nat (if i < 0 then i + int n else i)"

definition take_indices :: "real list \<Rightarrow> int list \<Rightarrow> error + real list" where
  "take_indices xs js =
     (if list_all (index_ok (length xs)) js
      then Inr (map (\<lambda>i. xs ! wrap_index (length xs) i) js)
      else Inl IndexError)"

text \<open>\<^verbatim>\<open>a[nz]\<close>, indexing by a boolean mask of the same length.\<close>

definition mask :: "real list \<Rightarrow> bool list \<Rightarrow> real list" where
  "mask xs bs = map fst (filter snd (zip xs bs))"

text \<open>
  \<^verbatim>\<open>np.argsort(a)\<close>: the indices that sort \<open>a\<close> ascending. The model sorts
  stably (equal samples keep their order); numpy's default sort does not promise an
  order among equal samples.
\<close>

definition argsort :: "real list \<Rightarrow> nat list" where
  "argsort a = sort_key (\<lambda>i. a ! i) [0..<length a]"

text \<open>\<^verbatim>\<open>np.cumsum\<close>.\<close>

fun cumsum_from :: "real \<Rightarrow> real list \<Rightarrow> real list" where
  "cumsum_from acc [] = []"
| "cumsum_from acc (x # xs) = (acc + x) # cumsum_from (acc + x) xs"

definition cumsum :: "real list \<Rightarrow> real list" where
  "cumsum xs = cumsum_from 0 xs"

text \<open>
  \<^verbatim>\<open>np.searchsorted(xs, v)\<close> with the default \<^verbatim>\<open>side='left'\<close>: for an
  ascending \<open>xs\<close>, the index \<open>i\<close> with \<open>xs[i-1] < v \<le> xs[i]\<close>, that is the length of
  the run of entries below \<open>v\<close> at the front. numpy specifies the result for ascending
  arrays only.
\<close>

definition searchsorted :: "real list \<Rightarrow> real \<Rightarrow> nat" where
  "searchsorted xs v = length (takeWhile (\<lambda>x. x < v) xs)"

subsection \<open>The function\<close>

text \<open>Lines 40 and 41: the default of \<^verbatim>\<open>weights\<close>.\<close>

definition default_weights :: "real list \<Rightarrow> real list option \<Rightarrow> real list" where
  "default_weights a weights = (case weights of None \<Rightarrow> ones_like a | Some w \<Rightarrow> w)"

text \<open>
  Line 77, \<^verbatim>\<open>100.0 / total * (sorted_cum_weights - sorted_weights / 2.0)\<close>, with
  \<open>total\<close> the last cumulative weight (line 74).
\<close>

definition partial_sum :: "real list \<Rightarrow> real list" where
  "partial_sum sorted_weights =
     (let sorted_cum_weights = cumsum sorted_weights;
          total = last sorted_cum_weights
      in map2 (\<lambda>c w. 100 / total * (c - w / 2)) sorted_cum_weights sorted_weights)"

text \<open>
  Lines 78 to 88 for one entry of \<open>q\<close>. The source writes the three cases as masked
  assignments; the assignment for \<open>start = -1\<close> comes last and so wins.
\<close>

definition q_value :: "real list \<Rightarrow> real list \<Rightarrow> real \<Rightarrow> real" where
  "q_value sorted_a psum q =
     (let start = int (searchsorted psum q) - 1 in
      if start = - 1 then hd sorted_a
      else if start = int (length psum) - 1 then last sorted_a
      else
        let k = nat start;
            fraction = (q - psum ! k) / (psum ! (k + 1) - psum ! k)
        in sorted_a ! k + fraction * (sorted_a ! (k + 1) - sorted_a ! k))"

text \<open>
  Lines 72 to 90, on the sorted samples and weights. Reading the last cumulative weight
  of an empty array raises \<^verbatim>\<open>IndexError\<close>.
\<close>

definition steps :: "real list \<Rightarrow> real list \<Rightarrow> real list \<Rightarrow> error + real list" where
  "steps sorted_a sorted_weights q =
     (let sorted_cum_weights = cumsum sorted_weights in
      if sorted_cum_weights = [] then Inl IndexError
      else if last sorted_cum_weights = 0 then Inl NonFinite
      else Inr (map (q_value sorted_a (partial_sum sorted_weights)) q))"

text \<open>Lines 56 to 70: reordering by the sorter, dropping zero weights, sorting.\<close>

definition reorder :: "real list \<Rightarrow> real list \<Rightarrow> int list option \<Rightarrow> error + real list \<times> real list" where
  "reorder a weights sorter =
     (case sorter of
        None \<Rightarrow> Inr (a, weights)
      | Some s \<Rightarrow>
          (case take_indices a s of
             Inl e \<Rightarrow> Inl e
           | Inr a' \<Rightarrow>
               (case take_indices weights s of
                  Inl e \<Rightarrow> Inl e
                | Inr weights' \<Rightarrow> Inr (a', weights'))))"

definition weighted_percentile ::
  "real list \<Rightarrow> rank \<Rightarrow> real list option \<Rightarrow> int list option \<Rightarrow> error + real list" where
  "weighted_percentile a q weights sorter =
     (let weights = default_weights a weights;
          q = flatten q
      in
      if q = [] then
        Inl (ValueError ''zero-size array to reduction operation maximum which has no identity'')
      else if amax q > 100 \<or> amin q < 0 then
        Inl (ValueError ''q should be in-between 0 and 100'')
      else if length a \<noteq> length weights then
        Inl (ValueError ''a and weights should have the same length.'')
      else
        (case reorder a weights sorter of
           Inl e \<Rightarrow> Inl e
         | Inr (a, weights) \<Rightarrow>
             let nz = map (\<lambda>w. w \<noteq> 0) weights;
                 a = mask a nz;
                 weights = mask weights nz
             in
             if sorter = None then
               let sorted_indices = argsort a;
                   sorted_a = map (\<lambda>i. a ! i) sorted_indices;
                   sorted_weights = map (\<lambda>i. weights ! i) sorted_indices
               in steps sorted_a sorted_weights q
             else steps a weights q))"

subsection \<open>Notions used to state the properties\<close>





text \<open>An outcome that is a \<^verbatim>\<open>ValueError\<close>, the exception of the two argument checks.\<close>

fun invalid_argument :: "error + real list \<Rightarrow> bool" where
  "invalid_argument (Inl (ValueError m)) = True"
| "invalid_argument r = False"

section \<open>Cumulative weights and positions\<close>


lemma length_cumsum_from: "length (cumsum_from acc xs) = length xs"
  by (induction xs arbitrary: acc) simp_all

lemma length_cumsum: "length (cumsum xs) = length xs"
  by (simp add: cumsum_def length_cumsum_from)

lemma cumsum_from_nth:
  "i < length xs \<Longrightarrow> cumsum_from acc xs ! i = acc + sum_list (take (Suc i) xs)"
proof (induction xs arbitrary: acc i)
  case Nil
  then show ?case by simp
next
  case (Cons x xs)
  show ?case
  proof (cases i)
    case 0
    then show ?thesis by simp
  next
    case (Suc j)
    with Cons.prems have "j < length xs" by simp
    from Cons.IH [OF this, of "acc + x"] Suc show ?thesis by (simp add: add.assoc)
  qed
qed

lemma cumsum_nth: "i < length xs \<Longrightarrow> cumsum xs ! i = sum_list (take (Suc i) xs)"
  by (simp add: cumsum_def cumsum_from_nth)

lemma cumsum_eq_Nil: "cumsum xs = [] \<longleftrightarrow> xs = []"
  using length_cumsum [of xs] by (metis length_0_conv)

lemma last_cumsum: "xs \<noteq> [] \<Longrightarrow> last (cumsum xs) = sum_list xs"
proof -
  assume ne: "xs \<noteq> []"
  then have "cumsum xs \<noteq> []" by (simp add: cumsum_eq_Nil)
  then have "last (cumsum xs) = cumsum xs ! (length xs - 1)"
    by (simp add: last_conv_nth length_cumsum)
  also from ne have "\<dots> = sum_list (take (Suc (length xs - 1)) xs)"
    by (intro cumsum_nth) simp
  also from ne have "\<dots> = sum_list xs" by simp
  finally show ?thesis .
qed

lemma length_partial_sum: "length (partial_sum ws) = length ws"
  by (simp add: partial_sum_def Let_def length_cumsum)

lemma partial_sum_nth:
  assumes "i < length ws"
  shows "partial_sum ws ! i = 100 / sum_list ws * (sum_list (take (Suc i) ws) - ws ! i / 2)"
proof -
  from assms have "ws \<noteq> []" by auto
  with assms show ?thesis
    by (simp add: partial_sum_def Let_def length_cumsum cumsum_nth last_cumsum)
qed

lemma sum_list_pos_weights:
  assumes "ws \<noteq> []" "\<forall>w\<in>set ws. (0::real) < w"
  shows "0 < sum_list ws"
  using assms by (induction ws) (auto intro: add_pos_nonneg sum_list_nonneg less_imp_le)

lemma partial_sum_step:
  assumes pos: "\<forall>w\<in>set ws. 0 < w" and i: "Suc i < length ws"
  shows "partial_sum ws ! i < partial_sum ws ! Suc i"
proof -
  from i have ne: "ws \<noteq> []" by auto
  have total: "0 < sum_list ws" using ne pos by (rule sum_list_pos_weights)
  from i pos have wi: "0 < ws ! i" and wj: "0 < ws ! Suc i" by simp_all
  from i have "take (Suc (Suc i)) ws = take (Suc i) ws @ [ws ! Suc i]"
    by (simp add: take_Suc_conv_app_nth)
  then have "sum_list (take (Suc (Suc i)) ws) = sum_list (take (Suc i) ws) + ws ! Suc i"
    by simp
  with wi wj have
    "sum_list (take (Suc i) ws) - ws ! i / 2 < sum_list (take (Suc (Suc i)) ws) - ws ! Suc i / 2"
    by simp
  with total have "100 / sum_list ws * (sum_list (take (Suc i) ws) - ws ! i / 2)
      < 100 / sum_list ws * (sum_list (take (Suc (Suc i)) ws) - ws ! Suc i / 2)"
    by (intro mult_strict_left_mono) simp_all
  with i show ?thesis by (simp add: partial_sum_nth)
qed

lemma partial_sum_strict:
  assumes "\<forall>w\<in>set ws. 0 < w"
  shows "sorted_wrt (<) (partial_sum ws)"
  using assms by (simp add: sorted_wrt_iff_nth_Suc_transp length_partial_sum partial_sum_step)

lemma partial_sum_first:
  assumes pos: "\<forall>w\<in>set ws. 0 < w" and ne: "ws \<noteq> []"
  shows "0 < partial_sum ws ! 0"
proof -
  have total: "0 < sum_list ws" using ne pos by (rule sum_list_pos_weights)
  from ne pos have w0: "0 < ws ! 0" by simp
  from ne have "take (Suc 0) ws = [ws ! 0]" by (cases ws) simp_all
  with w0 have "0 < sum_list (take (Suc 0) ws) - ws ! 0 / 2" by simp
  with total have "0 < 100 / sum_list ws * (sum_list (take (Suc 0) ws) - ws ! 0 / 2)"
    by simp
  with ne show ?thesis by (simp add: partial_sum_nth)
qed




section \<open>The search and the interpolation\<close>







lemma searchsorted_first: "xs \<noteq> [] \<Longrightarrow> v \<le> xs ! 0 \<Longrightarrow> searchsorted xs v = 0"
  by (cases xs) (simp_all add: searchsorted_def)









section \<open>From the call to the sorted pairs\<close>


lemma amax_gt: "qs \<noteq> [] \<Longrightarrow> (c < amax qs) = (\<exists>x\<in>set qs. c < x)"
  by (induction qs rule: amax.induct) (auto simp: less_max_iff_disj)

lemma amin_lt: "qs \<noteq> [] \<Longrightarrow> (amin qs < c) = (\<exists>x\<in>set qs. x < c)"
  by (induction qs rule: amin.induct) (auto simp: min_less_iff_disj)

lemma ranks_in_range:
  assumes "qs \<noteq> []"
  shows "(100 < amax qs \<or> amin qs < 0) = (\<exists>x\<in>set qs. x < 0 \<or> 100 < x)"
  using assms by (auto simp: amax_gt amin_lt)









lemma wp_validated:
  assumes ne: "flatten q \<noteq> []"
    and rng: "\<forall>x\<in>set (flatten q). 0 \<le> x \<and> x \<le> 100"
    and len: "length (default_weights a ws) = length a"
  shows "weighted_percentile a q ws sorter =
    (case reorder a (default_weights a ws) sorter of
       Inl e \<Rightarrow> Inl e
     | Inr (a', w') \<Rightarrow>
         if sorter = None then
           steps (map (\<lambda>i. mask a' (map (\<lambda>w. w \<noteq> 0) w') ! i) (argsort (mask a' (map (\<lambda>w. w \<noteq> 0) w'))))
             (map (\<lambda>i. mask w' (map (\<lambda>w. w \<noteq> 0) w') ! i) (argsort (mask a' (map (\<lambda>w. w \<noteq> 0) w'))))
             (flatten q)
         else steps (mask a' (map (\<lambda>w. w \<noteq> 0) w')) (mask w' (map (\<lambda>w. w \<noteq> 0) w')) (flatten q))"
proof -
  from rng have "\<not> (\<exists>x\<in>set (flatten q). x < 0 \<or> 100 < x)" by auto
  with ranks_in_range [OF ne] have "\<not> (100 < amax (flatten q) \<or> amin (flatten q) < 0)"
    by blast
  with ne len show ?thesis
    by (cases sorter) (simp_all add: weighted_percentile_def Let_def split: sum.splits prod.splits)
qed












section \<open>The properties\<close>




text \<open>
  The positions do not change when all the weights are multiplied by a constant other
  than zero. So under uniform weights, also negative ones, they increase strictly, and
  the search of line 78 is a search in an ascending array.
\<close>

lemma partial_sum_scale:
  assumes "c \<noteq> 0"
  shows "partial_sum (map ((*) c) ws) = partial_sum ws"
proof (rule nth_equalityI)
  show "length (partial_sum (map ((*) c) ws)) = length (partial_sum ws)"
    by (simp add: length_partial_sum)
next
  fix i assume "i < length (partial_sum (map ((*) c) ws))"
  then have i: "i < length ws" by (simp add: length_partial_sum)
  have t: "sum_list (take (Suc i) (map ((*) c) ws)) = c * sum_list (take (Suc i) ws)"
    by (simp add: take_map sum_list_const_mult)
  have "100 / (c * sum_list ws) * (c * sum_list (take (Suc i) ws) - c * ws ! i / 2)
      = 100 / (c * sum_list ws) * (c * (sum_list (take (Suc i) ws) - ws ! i / 2))"
    by (simp add: algebra_simps)
  also have "\<dots> = 100 / sum_list ws * (sum_list (take (Suc i) ws) - ws ! i / 2)"
    using assms by simp
  finally show "partial_sum (map ((*) c) ws) ! i = partial_sum ws ! i"
    using i by (simp add: partial_sum_nth t sum_list_const_mult)
qed

lemma partial_sum_uniform:
  assumes "c \<noteq> 0"
  shows "sorted_wrt (<) (partial_sum (replicate m c))"
proof -
  have "partial_sum (replicate m c) = partial_sum (map ((*) c) (replicate m 1))" by simp
  also have "\<dots> = partial_sum (replicate m 1)" using assms by (rule partial_sum_scale)
  finally show ?thesis by (simp add: partial_sum_strict)
qed








lemma mask_insert:
  assumes "length xs = length bs"
  shows "mask (take i xs @ x # drop i xs) (take i bs @ False # drop i bs) = mask xs bs"
proof -
  from assms have l: "length (take i xs) = length (take i bs)" by simp
  have "zip (take i xs) (take i bs) @ zip (drop i xs) (drop i bs) = zip xs bs"
    by (simp add: take_zip [symmetric] drop_zip [symmetric])
  then have "filter snd (zip (take i xs) (take i bs)) @ filter snd (zip (drop i xs) (drop i bs))
      = filter snd (zip xs bs)"
    by (metis filter_append)
  then show ?thesis
    unfolding mask_def zip_append [OF l] by (simp del: take_zip drop_zip)
qed

text \<open>
  Claim C4. Without a sorter, one more sample \<open>x\<close> of weight 0, put at any position
  \<open>i\<close> of the samples and of the weights, changes nothing: the call has the same outcome,
  value for value and error for error, for every \<open>q\<close>.
\<close>

theorem zero_weight_sample_ignored:
  "weighted_percentile (take i a @ x # drop i a) q (Some (take i w @ 0 # drop i w)) None
     = weighted_percentile a q (Some w) None"
proof (cases "length a = length w")
  case True
  let ?nz = "map (\<lambda>w. w \<noteq> 0) w"
  have nz: "map (\<lambda>w. w \<noteq> 0) (take i w @ 0 # drop i w) = take i ?nz @ False # drop i ?nz"
    by (simp add: take_map drop_map)
  from True have la: "length a = length ?nz" by simp
  have lw: "length w = length ?nz" by simp
  have ma: "mask (take i a @ x # drop i a) (map (\<lambda>w. w \<noteq> 0) (take i w @ 0 # drop i w)) = mask a ?nz"
    unfolding nz using la by (rule mask_insert)
  have mw: "mask (take i w @ 0 # drop i w) (map (\<lambda>w. w \<noteq> 0) (take i w @ 0 # drop i w)) = mask w ?nz"
    unfolding nz using lw by (rule mask_insert)
  from True have len: "length (take i a @ x # drop i a) = length (take i w @ 0 # drop i w)" by simp
  show ?thesis
    unfolding weighted_percentile_def default_weights_def reorder_def Let_def option.case sum.case prod.case ma mw
    using True len by simp
next
  case False
  then have "length (take i a @ x # drop i a) \<noteq> length (take i w @ 0 # drop i w)" by simp
  with False show ?thesis
    unfolding weighted_percentile_def default_weights_def Let_def option.case by simp
qed

theorem zero_weight_sample_ignored_witness:
  "weighted_percentile [10, 7, 20] (Scalar 50) (Some [3, 0, 1]) None = Inr [25 / 2]
 \<and> weighted_percentile [10, 20] (Scalar 50) (Some [3, 1]) None = Inr [25 / 2]"
proof -
  have "weighted_percentile [10, 20] (Scalar 50) (Some [3, 1]) None = Inr [25 / 2]"
    by code_simp
  with zero_weight_sample_ignored [of 1 "[10, 20]" 7 "Scalar 50" "[3, 1]"] show ?thesis
    by simp
qed

text \<open>
  Claim C9. For the samples 10 and 20 with the weights 3 and 1, the value at rank 50 is
  12.5, below the midpoint 15.
\<close>

theorem weighted_median_example:
  "weighted_percentile [10, 20] (Scalar 50) (Some [3, 1]) None = Inr [25 / 2]
 \<and> (25 / 2 :: real) < 15"
  by (simp add: weighted_percentile_def default_weights_def reorder_def mask_def argsort_def
      steps_def cumsum_def partial_sum_def q_value_def searchsorted_def upt_rec)

lemma wp_rank_out_of_range:
  assumes "\<exists>x\<in>set (flatten q). x < 0 \<or> 100 < x"
  shows "weighted_percentile a q ws sorter = Inl (ValueError ''q should be in-between 0 and 100'')"
proof -
  from assms have ne: "flatten q \<noteq> []" by auto
  from assms ranks_in_range [OF ne] have "100 < amax (flatten q) \<or> amin (flatten q) < 0"
    by blast
  with ne show ?thesis by (simp add: weighted_percentile_def Let_def)
qed

lemma wp_length_mismatch:
  assumes ne: "flatten q \<noteq> []"
    and rng: "\<forall>x\<in>set (flatten q). 0 \<le> x \<and> x \<le> 100"
    and len: "length a \<noteq> length (default_weights a ws)"
  shows "weighted_percentile a q ws sorter =
    Inl (ValueError ''a and weights should have the same length.'')"
proof -
  from rng have "\<not> (\<exists>x\<in>set (flatten q). x < 0 \<or> 100 < x)" by auto
  with ranks_in_range [OF ne] have "\<not> (100 < amax (flatten q) \<or> amin (flatten q) < 0)"
    by blast
  with ne len show ?thesis by (simp add: weighted_percentile_def Let_def)
qed

lemma steps_no_ValueError: "\<not> invalid_argument (steps sa sw qs)"
  by (simp add: steps_def Let_def)

lemma take_indices_error: "take_indices xs js = Inl e \<Longrightarrow> e = IndexError"
  by (simp add: take_indices_def split: if_splits)

lemma reorder_error: "reorder a w sorter = Inl e \<Longrightarrow> e = IndexError"
  by (auto simp: reorder_def split: option.splits sum.splits dest: take_indices_error)

lemma wp_validated_no_ValueError:
  assumes ne: "flatten q \<noteq> []"
    and rng: "\<forall>x\<in>set (flatten q). 0 \<le> x \<and> x \<le> 100"
    and len: "length (default_weights a ws) = length a"
  shows "\<not> invalid_argument (weighted_percentile a q ws sorter)"
proof (cases "reorder a (default_weights a ws) sorter")
  case (Inl e)
  then have "e = IndexError" by (rule reorder_error)
  with Inl show ?thesis by (simp add: wp_validated [OF ne rng len])
next
  case (Inr p)
  then show ?thesis
    by (cases p) (simp add: wp_validated [OF ne rng len] steps_no_ValueError)
qed

lemma wp_mismatch_is_ValueError:
  assumes "length a \<noteq> length (default_weights a ws)"
  shows "invalid_argument (weighted_percentile a q ws sorter)"
  using assms by (simp add: weighted_percentile_def Let_def)

text \<open>
  Claim C5. A rank outside \<open>[0, 100]\<close> makes the call fail with the \<^verbatim>\<open>ValueError\<close>
  of line 49, whatever the other arguments are. Samples and weights (after the default)
  of different lengths make the call fail with a \<^verbatim>\<open>ValueError\<close>, and with the one
  of line 54 when the ranks have passed their check. When the ranks are in range and
  the lengths agree, the outcome is not a \<^verbatim>\<open>ValueError\<close>. The checks run in the
  order of the source, the ranks first; the ranks are at least one, as the data model of
  the specification has it.
\<close>

theorem argument_validation:
  "((\<exists>x\<in>set (flatten q). x < 0 \<or> 100 < x) \<longrightarrow>
      weighted_percentile a q ws sorter = Inl (ValueError ''q should be in-between 0 and 100''))
 \<and> (length a \<noteq> length (default_weights a ws) \<longrightarrow>
      invalid_argument (weighted_percentile a q ws sorter))
 \<and> (flatten q \<noteq> [] \<and> (\<forall>x\<in>set (flatten q). 0 \<le> x \<and> x \<le> 100)
      \<and> length a \<noteq> length (default_weights a ws) \<longrightarrow>
      weighted_percentile a q ws sorter =
        Inl (ValueError ''a and weights should have the same length.''))
 \<and> (flatten q \<noteq> [] \<and> (\<forall>x\<in>set (flatten q). 0 \<le> x \<and> x \<le> 100)
      \<and> length a = length (default_weights a ws) \<longrightarrow>
      \<not> invalid_argument (weighted_percentile a q ws sorter))"
  using wp_rank_out_of_range [of q a ws sorter] wp_length_mismatch [of q a ws sorter]
    wp_validated_no_ValueError [of q a ws sorter] wp_mismatch_is_ValueError [of a ws q sorter]
  by simp

theorem argument_validation_witness:
  "weighted_percentile [1, 2, 3] (Ranks [50, - 1]) None None =
     Inl (ValueError ''q should be in-between 0 and 100'')
 \<and> weighted_percentile [1, 2, 3] (Scalar 101) (Some [1, 1]) None =
     Inl (ValueError ''q should be in-between 0 and 100'')
 \<and> weighted_percentile [1, 2, 3] (Scalar 50) (Some [1, 1]) None =
     Inl (ValueError ''a and weights should have the same length.'')
 \<and> \<not> invalid_argument (weighted_percentile [1, 2, 3] (Scalar 50) (Some [1, 0, 1]) None)"
  using argument_validation [of "Ranks [50, - 1]" "[1, 2, 3]" None None]
    argument_validation [of "Scalar 101" "[1, 2, 3]" "Some [1, 1]" None]
    argument_validation [of "Scalar 50" "[1, 2, 3]" "Some [1, 1]" None]
    argument_validation [of "Scalar 50" "[1, 2, 3]" "Some [1, 0, 1]" None]
  by (simp add: default_weights_def)

lemma mask_all_False:
  assumes "\<forall>b\<in>set bs. \<not> b"
  shows "mask xs bs = []"
proof -
  have "filter snd (zip xs bs) = []"
    using assms by (auto simp: filter_empty_conv dest: set_zip_rightD)
  then show ?thesis by (simp add: mask_def)
qed

lemma steps_empty: "steps sa [] qs = Inl IndexError"
  by (simp add: steps_def cumsum_def)

lemma take_indices_subset:
  assumes "take_indices xs js = Inr ys"
  shows "set ys \<subseteq> set xs"
proof -
  from assms have ok: "list_all (index_ok (length xs)) js"
    and ys: "ys = map (\<lambda>i. xs ! wrap_index (length xs) i) js"
    by (simp_all add: take_indices_def split: if_splits)
  have "wrap_index (length xs) i < length xs" if "i \<in> set js" for i
    using ok that by (auto simp: list_all_iff index_ok_def wrap_index_def)
  then show ?thesis unfolding ys by auto
qed

text \<open>
  Claim C8, as amended. When the ranks are valid, the lengths agree and every weight is
  zero (which includes the empty sample sequence), the call fails with
  \<^verbatim>\<open>IndexError\<close>, raised by line 74 on the empty array of cumulative weights (or by
  line 57 or 58 on an index of the sorter that is out of bounds). It returns no number.
\<close>

theorem no_nonzero_weight_raises_IndexError:
  assumes ne: "flatten q \<noteq> []"
    and rng: "\<forall>x\<in>set (flatten q). 0 \<le> x \<and> x \<le> 100"
    and len: "length (default_weights a ws) = length a"
    and zero: "\<forall>x\<in>set (default_weights a ws). x = 0"
  shows "weighted_percentile a q ws sorter = Inl IndexError"
proof (cases "reorder a (default_weights a ws) sorter")
  case (Inl e)
  then have "e = IndexError" by (rule reorder_error)
  with Inl show ?thesis by (simp add: wp_validated [OF ne rng len])
next
  case (Inr p)
  obtain a' w' where p: "p = (a', w')" by (cases p)
  have "set w' \<subseteq> set (default_weights a ws)"
    using Inr p by (auto simp: reorder_def split: option.splits sum.splits dest: take_indices_subset)
  with zero have "\<forall>b\<in>set (map (\<lambda>w. w \<noteq> 0) w'). \<not> b" by auto
  then have m: "mask a' (map (\<lambda>w. w \<noteq> 0) w') = []" "mask w' (map (\<lambda>w. w \<noteq> 0) w') = []"
    by (rule mask_all_False)+
  show ?thesis
    unfolding wp_validated [OF ne rng len] Inr p sum.case prod.case m
    by (simp add: steps_empty argsort_def)
qed

theorem no_nonzero_weight_raises_IndexError_witness:
  "weighted_percentile [1, 2] (Ranks [0, 50]) (Some [0, 0]) None = Inl IndexError
 \<and> weighted_percentile [] (Scalar 50) None None = Inl IndexError"
  using no_nonzero_weight_raises_IndexError [of "Ranks [0, 50]" "[1, 2]" "Some [0, 0]" None]
    no_nonzero_weight_raises_IndexError [of "Scalar 50" "[]" None None]
  by (simp add: default_weights_def ones_like_def)

text \<open>
  Claim C8 as stated asks for an error of the kind of an invalid argument. The outcome
  for two zero weights, and for no sample at all, is not a \<^verbatim>\<open>ValueError\<close>.
\<close>

theorem degenerate_input_counterexample:
  "\<not> invalid_argument (weighted_percentile [1, 2] (Scalar 50) (Some [0, 0]) None)
 \<and> \<not> invalid_argument (weighted_percentile [] (Scalar 50) None None)"
  by (simp add: weighted_percentile_def default_weights_def ones_like_def reorder_def mask_def
      argsort_def steps_def cumsum_def)





text \<open>
  A sequence of ranks: the result has one entry for each rank, and each entry is the
  value that the call returns for that rank alone.
\<close>

lemma steps_entry:
  assumes "steps sa sw qs = Inr r" and "i < length qs"
  shows "length r = length qs" and "steps sa sw [qs ! i] = Inr [r ! i]"
  using assms by (auto simp: steps_def Let_def split: if_splits)

lemma sequence_entries:
  assumes r: "weighted_percentile a (Ranks qs) ws sorter = Inr r" and i: "i < length qs"
  shows "length r = length qs \<and> weighted_percentile a (Scalar (qs ! i)) ws sorter = Inr [r ! i]"
proof -
  from i have ne: "flatten (Ranks qs) \<noteq> []" by auto
  have rng: "\<forall>x\<in>set (flatten (Ranks qs)). 0 \<le> x \<and> x \<le> 100"
  proof (rule ccontr)
    assume "\<not> ?thesis"
    then have "\<exists>x\<in>set (flatten (Ranks qs)). x < 0 \<or> 100 < x" by (meson not_le_imp_less)
    from wp_rank_out_of_range [OF this] r show False by simp
  qed
  have len: "length (default_weights a ws) = length a"
  proof (rule ccontr)
    assume "\<not> ?thesis"
    then have "length a \<noteq> length (default_weights a ws)" by simp
    from wp_length_mismatch [OF ne rng this] r show False by simp
  qed
  from i rng have ne1: "flatten (Scalar (qs ! i)) \<noteq> []"
    and rng1: "\<forall>x\<in>set (flatten (Scalar (qs ! i))). 0 \<le> x \<and> x \<le> 100" by simp_all
  note many = wp_validated [OF ne rng len, of sorter]
  note one = wp_validated [OF ne1 rng1 len, of sorter]
  show ?thesis
  proof (cases "reorder a (default_weights a ws) sorter")
    case (Inl e)
    with r many show ?thesis by simp
  next
    case (Inr p)
    obtain a' w' where p: "p = (a', w')" by (cases p)
    show ?thesis
    proof (cases sorter)
      case None
      with r many Inr p steps_entry [OF _ i] show ?thesis
        unfolding one by (simp del: flatten.simps(1)) (simp add: Inr p)
    next
      case (Some s)
      with r many Inr p steps_entry [OF _ i] show ?thesis
        unfolding one by (simp del: flatten.simps(1)) (simp add: Inr p)
    qed
  qed
qed

text \<open>
  Claim C2. The claim asks for a scalar result when the rank is a scalar. The function
  wraps a scalar rank into an array of one entry (lines 43 to 46) and returns the array
  \<open>q_values\<close> of that shape (lines 79 and 90): a scalar rank has the outcome of the
  sequence holding that rank alone, and for the scalar rank 50 on the samples 1, 2, 3
  the result is the one-entry array \<open>[2]\<close>.
\<close>

theorem scalar_rank_returns_sequence:
  "weighted_percentile a (Scalar x) ws sorter = weighted_percentile a (Ranks [x]) ws sorter
 \<and> weighted_percentile [1, 2, 3] (Scalar 50) None None = Inr [2]"
proof -
  have "weighted_percentile [1, 2, 3] (Scalar 50) None None = Inr [2]" by code_simp
  then show ?thesis by (simp add: weighted_percentile_def)
qed

end
